theory Spec2Isabelle
  imports Main
begin

section \<open>The tokenizer of the Shell Loop (stage1\_shell.c, \<open>get_input\<close>)\<close>

text \<open>
  A C string is modelled as a \<^typ>\<open>string\<close> (the characters before the terminating
  NUL); a \<open>char *\<close> that may be \<open>NULL\<close> is a \<^typ>\<open>string option\<close>.

  \<open>strtok\<close> of the C library, as a function of the delimiter set and of the text
  that is left to scan (the saved pointer): it skips leading delimiters, returns
  \<open>NULL\<close> when nothing is left, and otherwise returns the token up to the next
  delimiter together with the text after that delimiter.
\<close>

definition strtok :: "string \<Rightarrow> string \<Rightarrow> (string \<times> string) option" where
  "strtok delim s =
     (let s1 = dropWhile (\<lambda>c. c \<in> set delim) s in
      if s1 = [] then None
      else Some (takeWhile (\<lambda>c. c \<notin> set delim) s1,
                 drop 1 (dropWhile (\<lambda>c. c \<notin> set delim) s1)))"

lemma strtok_shorter:
  assumes "strtok delim s = Some (t, r)"
  shows "length r < length s"
proof -
  define s1 where "s1 = dropWhile (\<lambda>c. c \<in> set delim) s"
  from assms have ne: "s1 \<noteq> []" and r: "r = drop 1 (dropWhile (\<lambda>c. c \<notin> set delim) s1)"
    by (auto simp: strtok_def Let_def s1_def split: if_splits)
  from ne have "hd s1 \<notin> set delim"
    unfolding s1_def by (metis (mono_tags, lifting) hd_dropWhile)
  with ne have "length (dropWhile (\<lambda>c. c \<notin> set delim) s1) < length s1"
    by (cases s1) (auto simp: less_Suc_eq_le length_dropWhile_le)
  moreover have "length s1 \<le> length s"
    unfolding s1_def by (rule length_dropWhile_le)
  ultimately show ?thesis
    by (simp add: r)
qed

text \<open>The separator string of \<open>get_input\<close>: a single space.\<close>

definition separator :: string where
  "separator = '' ''"

text \<open>
  The successive non-\<open>NULL\<close> results of \<open>strtok\<close> on a line: the tokens that the
  loop of \<open>get_input\<close> sees, in order.
\<close>

function tokenize :: "string \<Rightarrow> string list" where
  "tokenize s =
     (case strtok separator s of
        None \<Rightarrow> []
      | Some (parsed, rest) \<Rightarrow> parsed # tokenize rest)"
  by pat_completeness auto
termination
  by (relation "measure length") (auto dest: strtok_shorter)

declare tokenize.simps [simp del]

text \<open>
  The block returned by \<open>malloc(8 * sizeof(char *))\<close> is a list of eight pointer
  slots. A store \<open>command[index] = v\<close> is checked against the size of the block:
  a store past its end is undefined behaviour in C and is the error value
  \<open>OutOfBounds index\<close> here. The slots of the fresh block are never read before
  they are written, so their initial contents are taken to be \<open>NULL\<close>.

  The other two faults are \<open>strtok\<close> started on a \<open>NULL\<close> line (\<open>NullInput\<close>) and
  a read of the stage array of pipe.c outside its elements (\<open>BadCommand\<close>).
\<close>

type_synonym slot = "string option"

datatype fault = OutOfBounds nat | NullInput | BadCommand

definition store :: "nat \<Rightarrow> slot \<Rightarrow> slot list \<Rightarrow> fault + slot list" where
  "store index v command =
     (if index < length command then Inr (command[index := v])
      else Inl (OutOfBounds index))"

definition command_slots :: nat where
  "command_slots = 8"

text \<open>
  The loop of \<open>get_input\<close>, from the text left to scan, the current \<open>index\<close> and the
  block: each token is stored at \<open>index\<close>, which is then incremented; when
  \<open>strtok\<close> returns \<open>NULL\<close> the terminating \<open>NULL\<close> is stored at \<open>index\<close>.
  No bound on \<open>index\<close> is tested.
\<close>

function get_input_loop :: "string \<Rightarrow> nat \<Rightarrow> slot list \<Rightarrow> fault + slot list" where
  "get_input_loop rest index command =
     (case strtok separator rest of
        None \<Rightarrow> store index None command
      | Some (parsed, rest') \<Rightarrow>
          (case store index (Some parsed) command of
             Inl e \<Rightarrow> Inl e
           | Inr command' \<Rightarrow> get_input_loop rest' (Suc index) command'))"
  by pat_completeness auto
termination
  by (relation "measure (\<lambda>(rest, index, command). length rest)") (auto dest: strtok_shorter)

declare get_input_loop.simps [simp del]

definition get_input :: "string \<Rightarrow> fault + slot list" where
  "get_input input = get_input_loop input 0 (replicate command_slots None)"

text \<open>
  What a reader of the block sees as the argument vector: the entries before the
  first \<open>NULL\<close>.
\<close>

definition argv_of :: "slot list \<Rightarrow> string list" where
  "argv_of command = map the (takeWhile (\<lambda>v. v \<noteq> None) command)"

section \<open>Processes and the operating system\<close>

text \<open>
  Each program is modelled as the run of one process: a function of the process state
  and of the results that the operating system gives to its calls. A descriptor table
  maps a descriptor (the position in the list) to the open file it refers to, if any.
  An open file is either one that the process held when the program started
  (\<open>Inherited k\<close>: the file open at descriptor \<open>k\<close> then) or an end of the pipe made
  by the \<open>k\<close>-th call of \<open>pipe\<close> in the history of the process.

  Values of the C types \<open>int\<close> and \<open>pid_t\<close> are integers here; the programs only
  compare them and add one to a loop counter, far from the limits of 32 bits.
\<close>

datatype fobj = Inherited nat | PipeRead nat | PipeWrite nat

type_synonym fdtable = "fobj option list"

datatype arg = I int | S string

text \<open>
  The calls a process issues, in order. \<open>EvPrintf\<close> writes to standard output,
  \<open>EvPerror\<close> writes its argument and the text of \<open>errno\<close> to standard error.
\<close>

datatype event =
    EvReadline string
  | EvPrintf string "arg list"
  | EvPerror string
  | EvPipe "(int \<times> int) option"
  | EvFork int
  | EvDup2 int int
  | EvClose int
  | EvExecvp "string list"
  | EvChdir "string option"
  | EvGetcwd
  | EvWaitpid int
  | EvExit int

text \<open>
  The state of a process. A child created by \<open>fork\<close> starts from a copy of its
  parent's state, so \<open>trace\<close>, \<open>nfork\<close> and \<open>npipe\<close> of a child include what its
  ancestors did before the fork. Heap deallocation (\<open>free\<close>) is not part of the state.
\<close>

record proc =
  fds :: fdtable
  cur_dir :: string
  trace :: "event list"
  nfork :: nat
  npipe :: nat

text \<open>
  What the operating system decides: the value that the \<open>k\<close>-th call of \<open>fork\<close> in
  the history of this process returns (0 in the child, the child's identifier in the
  parent, negative on failure), whether the \<open>k\<close>-th call of \<open>pipe\<close> succeeds,
  whether \<open>execvp\<close> of an argument vector succeeds, where \<open>chdir\<close> of a path leads
  from a directory (if it succeeds), and whether the name of a directory can be read.
\<close>

record os =
  fork_ret :: "nat \<Rightarrow> int"
  pipe_ok :: "nat \<Rightarrow> bool"
  exec_ok :: "string list \<Rightarrow> bool"
  chdir_to :: "string \<Rightarrow> string \<Rightarrow> string option"
  getcwd_ok :: "string \<Rightarrow> bool"

text \<open>
  How the run of a piece of code ends for the process: its image was replaced by a
  successful \<open>execvp\<close>, the function returned a value, the process called \<open>exit\<close>,
  the Shell Loop goes on to its next iteration, or the behaviour is undefined in C.
\<close>

datatype outcome =
    Replaced "string list"
  | Returned int
  | Exited int
  | Continues
  | Fault fault

definition emit :: "event \<Rightarrow> proc \<Rightarrow> proc" where
  "emit e p = p\<lparr>trace := trace p @ [e]\<rparr>"

definition fd_get :: "fdtable \<Rightarrow> int \<Rightarrow> fobj option" where
  "fd_get t fd = (if 0 \<le> fd \<and> nat fd < length t then t ! nat fd else None)"

definition fd_set :: "fdtable \<Rightarrow> nat \<Rightarrow> fobj option \<Rightarrow> fdtable" where
  "fd_set t n v =
     (if n < length t then t[n := v]
      else if v = None then t
      else t @ replicate (n - length t) None @ [v])"

text \<open>The lowest descriptor that is not open: the one a new open file gets.\<close>

definition lowest_free :: "fdtable \<Rightarrow> nat" where
  "lowest_free t = length (takeWhile (\<lambda>v. v \<noteq> None) t)"

definition printf :: "string \<Rightarrow> arg list \<Rightarrow> proc \<Rightarrow> proc" where
  "printf fmt args p = emit (EvPrintf fmt args) p"

definition perror :: "string \<Rightarrow> proc \<Rightarrow> proc" where
  "perror msg p = emit (EvPerror msg) p"

definition fork :: "os \<Rightarrow> proc \<Rightarrow> int \<times> proc" where
  "fork os p =
     (fork_ret os (nfork p), emit (EvFork (fork_ret os (nfork p))) (p\<lparr>nfork := Suc (nfork p)\<rparr>))"

text \<open>
  \<open>pipe(fd)\<close>: on success the two lowest free descriptors are opened on the read and
  the write end of a new pipe and written to \<open>fd[0]\<close> and \<open>fd[1]\<close>; on failure the
  array is left as it was.
\<close>

definition pipe :: "os \<Rightarrow> int \<times> int \<Rightarrow> proc \<Rightarrow> (int \<times> int) \<times> proc" where
  "pipe os fd p =
     (if pipe_ok os (npipe p) then
        (let r = lowest_free (fds p);
             t1 = fd_set (fds p) r (Some (PipeRead (npipe p)));
             w = lowest_free t1;
             t2 = fd_set t1 w (Some (PipeWrite (npipe p)))
         in ((int r, int w),
             emit (EvPipe (Some (int r, int w))) (p\<lparr>fds := t2, npipe := Suc (npipe p)\<rparr>)))
      else (fd, emit (EvPipe None) (p\<lparr>npipe := Suc (npipe p)\<rparr>)))"

text \<open>
  \<open>dup2(oldfd, newfd)\<close> makes \<open>newfd\<close> refer to the open file of \<open>oldfd\<close> and fails,
  changing nothing, when \<open>oldfd\<close> is not open; \<open>close(fd)\<close> frees the descriptor and
  fails, changing nothing, when it is not open. The source ignores both results.
\<close>

definition dup2 :: "int \<Rightarrow> int \<Rightarrow> proc \<Rightarrow> proc" where
  "dup2 oldfd newfd p =
     emit (EvDup2 oldfd newfd)
       (case fd_get (fds p) oldfd of
          None \<Rightarrow> p
        | Some obj \<Rightarrow> if newfd < 0 then p else p\<lparr>fds := fd_set (fds p) (nat newfd) (Some obj)\<rparr>)"

definition close :: "int \<Rightarrow> proc \<Rightarrow> proc" where
  "close fd p =
     emit (EvClose fd) (if fd < 0 then p else p\<lparr>fds := fd_set (fds p) (nat fd) None\<rparr>)"

text \<open>
  \<open>execvp(argv[0], argv)\<close>: on success the process image is replaced and the call
  never returns; on failure it returns \<open>-1\<close>.
\<close>

definition execvp :: "os \<Rightarrow> string list \<Rightarrow> proc \<Rightarrow> outcome \<times> proc" where
  "execvp os argv p =
     (if exec_ok os argv then Replaced argv else Returned (- 1), emit (EvExecvp argv) p)"

definition chdir :: "os \<Rightarrow> string option \<Rightarrow> proc \<Rightarrow> int \<times> proc" where
  "chdir os path p =
     (let p1 = emit (EvChdir path) p in
      case path of
        None \<Rightarrow> (- 1, p1)
      | Some d \<Rightarrow>
          (case chdir_to os (cur_dir p) d of
             None \<Rightarrow> (- 1, p1)
           | Some d' \<Rightarrow> (0, p1\<lparr>cur_dir := d'\<rparr>)))"

section \<open>The pipeline orchestrator (pipe.c)\<close>

text \<open>
  \<open>struct command\<close> holds one argument vector. \<open>cmd + i\<close> and \<open>cmd[i]\<close> point into
  the array of stages only for \<open>0 \<le> i < length cmd\<close>; reading the argument
  vector through any other index is undefined behaviour.
\<close>

type_synonym command = "string list"

definition cmd_at :: "command list \<Rightarrow> int \<Rightarrow> command option" where
  "cmd_at cmd i = (if 0 \<le> i \<and> nat i < length cmd then Some (cmd ! nat i) else None)"

definition spawn_proc :: "os \<Rightarrow> int \<Rightarrow> int \<Rightarrow> command option \<Rightarrow> proc \<Rightarrow> outcome \<times> proc" where
  "spawn_proc os in_fd out_fd cmd p =
     (let p1 = printf ''set_stdin_to: %d, set_stdout_to: %d\<newline>'' [I in_fd, I out_fd] p;
          (pid, p2) = fork os p1
      in if pid = 0 then
           (let p3 = (if in_fd \<noteq> 0 then close in_fd (dup2 in_fd 0 p2) else p2);
                p4 = (if out_fd \<noteq> 1 then close out_fd (dup2 out_fd 1 p3) else p3)
            in case cmd of
                 None \<Rightarrow> (Fault BadCommand, p4)
               | Some argv \<Rightarrow> execvp os argv p4)
         else (Returned pid, p2))"

text \<open>
  The loop of \<open>fork_pipes\<close> from iteration \<open>i\<close>, with the rolling input descriptor
  \<open>in_fd\<close> and the contents \<open>fd\<close> of the two-element array, followed by the code
  after the loop. The value that \<open>spawn_proc\<close> returns is ignored: whatever it is,
  the process closes \<open>fd[1]\<close> and goes on.
\<close>

function fork_pipes_loop ::
  "os \<Rightarrow> int \<Rightarrow> command list \<Rightarrow> int \<Rightarrow> int \<Rightarrow> int \<times> int \<Rightarrow> proc \<Rightarrow> outcome \<times> proc" where
  "fork_pipes_loop os n cmd i in_fd fd p =
     (if i < n - 1 then
        (let (fd', p1) = pipe os fd p;
             p2 = printf ''pipe results: (%d %d)\<newline>'' [I (fst fd'), I (snd fd')] p1;
             (r, p3) = spawn_proc os in_fd (snd fd') (cmd_at cmd i) p2
         in case r of
              Returned pid \<Rightarrow> fork_pipes_loop os n cmd (i + 1) (fst fd') fd' (close (snd fd') p3)
            | _ \<Rightarrow> (r, p3))
      else
        (let p1 = (if in_fd \<noteq> 0 then dup2 in_fd 0 p else p)
         in case cmd_at cmd i of
              None \<Rightarrow> (Fault BadCommand, p1)
            | Some argv \<Rightarrow> execvp os argv p1))"
  by pat_completeness auto
termination
  by (relation "measure (\<lambda>(os, n, cmd, i, in_fd, fd, p). nat (n - 1 - i))") auto

declare fork_pipes_loop.simps [simp del]

text \<open>
  \<open>fork_pipes(n, cmd)\<close>; \<open>fd_init\<close> is the indeterminate initial content of the local
  array \<open>fd\<close>, which is read only if the first \<open>pipe\<close> fails.
\<close>

definition fork_pipes :: "os \<Rightarrow> int \<times> int \<Rightarrow> int \<Rightarrow> command list \<Rightarrow> proc \<Rightarrow> outcome \<times> proc" where
  "fork_pipes os fd_init n cmd p = fork_pipes_loop os n cmd 0 0 fd_init p"

definition pipe_main :: "os \<Rightarrow> int \<times> int \<Rightarrow> proc \<Rightarrow> outcome \<times> proc" where
  "pipe_main os fd_init p =
     fork_pipes os fd_init 4
       [[''ls'', ''-la''], [''awk'', ''{print $9}''], [''sort''], [''uniq'']] p"

section \<open>The Shell Loop (stage1\_shell.c) and the directory utility (cd.c)\<close>

text \<open>\<open>cwd()\<close>: \<open>getcwd\<close> into a buffer of 256 bytes, which must hold the name and its NUL.\<close>

definition cwd :: "os \<Rightarrow> proc \<Rightarrow> proc" where
  "cwd os p =
     (let p1 = emit EvGetcwd p in
      if getcwd_ok os (cur_dir p) \<and> length (cur_dir p) < 256
      then printf ''Current Working Directory: %s\<newline>'' [S (cur_dir p)] p1
      else perror ''getcwd() error'' p1)"

text \<open>
  One iteration of the \<open>while (1)\<close> loop of \<open>main\<close>, for the value that \<open>readline\<close>
  returns (\<open>None\<close> is \<open>NULL\<close>, at the end of the input, which \<open>get_input\<close> hands to
  \<open>strtok\<close> unchecked). The block has eight slots, so \<open>command[0]\<close> and
  \<open>command[1]\<close> are reads inside it.
\<close>

definition shell_iter :: "os \<Rightarrow> string option \<Rightarrow> proc \<Rightarrow> outcome \<times> proc" where
  "shell_iter os input p =
     (let p0 = emit (EvReadline ''$ '') p in
      case input of
        None \<Rightarrow> (Fault NullInput, p0)
      | Some line \<Rightarrow>
          (case get_input line of
             Inl e \<Rightarrow> (Fault e, p0)
           | Inr command \<Rightarrow>
               (case command ! 0 of
                  None \<Rightarrow> (Continues, p0)
                | Some name \<Rightarrow>
                    (let (child_pid, p1) = fork os p0 in
                     if child_pid < 0 then (Exited 1, emit (EvExit 1) (perror ''Fork failed'' p1))
                     else if child_pid = 0 then
                       (if name = ''cd'' then
                          (let (result, p2) = chdir os (command ! 1) p1;
                               p3 = (if result \<noteq> 0 then perror ''chdir() result'' p2 else p2)
                           in (Continues, cwd os p3))
                        else
                          (let (r, p2) = execvp os (argv_of command) p1 in
                           case r of
                             Returned v \<Rightarrow>
                               if v < 0 then (Exited 1, emit (EvExit 1) (perror name p2))
                               else (Continues,
                                     printf ''This won't be printed if execvp is successul\<newline>'' [] p2)
                           | _ \<Rightarrow> (r, p2)))
                     else (Continues, emit (EvWaitpid child_pid) p1)))))"

text \<open>
  The loop over the lines that \<open>readline\<close> delivers. When the lines given are used
  up the loop is still running (\<open>Continues\<close>), waiting in \<open>readline\<close>.
\<close>

fun shell_loop :: "os \<Rightarrow> string option list \<Rightarrow> proc \<Rightarrow> outcome \<times> proc" where
  "shell_loop os [] p = (Continues, p)"
| "shell_loop os (input # inputs) p =
     (case shell_iter os input p of
        (Continues, p') \<Rightarrow> shell_loop os inputs p'
      | (r, p') \<Rightarrow> (r, p'))"

definition shell_main :: "os \<Rightarrow> string option list \<Rightarrow> proc \<Rightarrow> outcome \<times> proc" where
  "shell_main os inputs p = shell_loop os inputs (printf ''Welcome to shell\<newline>'' [] p)"

text \<open>\<open>main\<close> of cd.c, for the argument vector \<open>argv\<close> (\<open>argc\<close> is its length).\<close>

definition cd_main :: "os \<Rightarrow> string list \<Rightarrow> proc \<Rightarrow> outcome \<times> proc" where
  "cd_main os argv p =
     (if int (length argv) \<noteq> 2 then (Returned 1, printf ''invalid args'' [] p)
      else
        (let (result, p1) = chdir os (Some (argv ! 1)) p;
             p2 = (if result \<noteq> 0 then perror ''chdir() result'' p1 else p1)
         in (Returned 0, cwd os p2)))"

section \<open>Parent and child; a concrete machine\<close>

text \<open>
  \<open>fork\<close> returns twice. The child made by the \<open>k\<close>-th \<open>fork\<close> of a process runs
  the same program on a copy of the state, so its whole history is the run of the
  program under the same results, except that its \<open>k\<close>-th \<open>fork\<close> returned 0.
\<close>

definition child_of :: "nat \<Rightarrow> os \<Rightarrow> os" where
  "child_of k os = os\<lparr>fork_ret := (fork_ret os)(k := 0)\<rparr>"

text \<open>
  A process as a shell starts it, with the three standard descriptors open, and a
  machine on which every \<open>fork\<close> and \<open>pipe\<close> succeeds, the four programs of the
  pipeline of pipe.c exist, and \<open>/tmp\<close> is the only directory one can change to.
\<close>

definition proc0 :: proc where
  "proc0 = \<lparr>fds = [Some (Inherited 0), Some (Inherited 1), Some (Inherited 2)],
            cur_dir = ''/home/user'', trace = [], nfork = 0, npipe = 0\<rparr>"

definition os0 :: os where
  "os0 = \<lparr>fork_ret = (\<lambda>k. 100 + int k), pipe_ok = (\<lambda>k. True),
          exec_ok = (\<lambda>argv. argv \<noteq> [] \<and> hd argv \<in> set [''ls'', ''awk'', ''sort'', ''uniq'']),
          chdir_to = (\<lambda>d path. if path = ''/tmp'' then Some ''/tmp'' else None),
          getcwd_ok = (\<lambda>d. True)\<rparr>"

text \<open>The same machine when it has no room for another process.\<close>

definition os_nofork :: os where
  "os_nofork = os0\<lparr>fork_ret := (\<lambda>k. - 1)\<rparr>"

text \<open>
  The state of the orchestrator at the head of iteration \<open>j\<close> of the loop of
  \<open>fork_pipes\<close>, when \<open>a\<close> and \<open>b\<close> are the files that were open at descriptors 0
  and 1 at the start: \<open>j\<close> children and \<open>j\<close> pipes were made, descriptors 0 and 1 are
  untouched, and \<open>in_fd\<close> is open on the rolling input.
\<close>

definition at_stage :: "fobj \<Rightarrow> fobj \<Rightarrow> nat \<Rightarrow> int \<Rightarrow> proc \<Rightarrow> bool" where
  "at_stage a b j in_fd p \<longleftrightarrow>
     nfork p = j \<and> npipe p = j \<and>
     fd_get (fds p) 0 = Some a \<and> fd_get (fds p) 1 = Some b \<and>
     fd_get (fds p) in_fd = Some (if j = 0 then a else PipeRead (j - 1)) \<and>
     (in_fd = 0 \<longleftrightarrow> j = 0)"

text \<open>No descriptor of the process is open on the write end of a pipe.\<close>

definition no_write_end :: "proc \<Rightarrow> bool" where
  "no_write_end p \<longleftrightarrow> (\<forall>x k. fd_get (fds p) x \<noteq> Some (PipeWrite k))"

text \<open>
  The whitespace characters of C (\<open>isspace\<close> in the C locale): space, tab, newline,
  vertical tab, form feed and carriage return.
\<close>

definition isspace :: "char \<Rightarrow> bool" where
  "isspace c \<longleftrightarrow> c \<in> set [CHR '' '', CHR 0x09, CHR 0x0A, CHR 0x0B, CHR 0x0C, CHR 0x0D]"

fun is_wait :: "event \<Rightarrow> bool" where
  "is_wait (EvWaitpid pid) = True"
| "is_wait _ = False"

section \<open>The stores of the tokenizer\<close>


lemma get_input_loop_in_bounds:
  "index + length (tokenize rest) < length command \<Longrightarrow>
   get_input_loop rest index command =
     Inr (take index command @ map Some (tokenize rest) @
          None # drop (Suc (index + length (tokenize rest))) command)"
proof (induction rest index command rule: get_input_loop.induct)
  case (1 rest index command)
  show ?case
  proof (cases "strtok separator rest")
    case None
    then have "tokenize rest = []"
      by (simp add: tokenize.simps)
    with None "1.prems" show ?thesis
      by (simp add: get_input_loop.simps [of rest] store_def upd_conv_take_nth_drop)
  next
    case (Some a)
    obtain parsed rest' where a: "a = (parsed, rest')"
      by (cases a)
    from Some a have tk: "tokenize rest = parsed # tokenize rest'"
      by (simp add: tokenize.simps [of rest])
    from "1.prems" tk have lt: "index < length command"
      by simp
    then have st: "store index (Some parsed) command = Inr (command[index := Some parsed])"
      by (simp add: store_def)
    from "1.prems" tk
    have "Suc index + length (tokenize rest') < length (command[index := Some parsed])"
      by simp
    from "1.IH" [OF Some a [symmetric] st this]
    have "get_input_loop rest' (Suc index) (command[index := Some parsed]) =
            Inr (take (Suc index) (command[index := Some parsed]) @ map Some (tokenize rest') @
                 None # drop (Suc (Suc index + length (tokenize rest')))
                          (command[index := Some parsed]))" .
    moreover have "take (Suc index) (command[index := Some parsed]) =
                     take index command @ [Some parsed]"
      using lt by (simp add: take_Suc_conv_app_nth)
    moreover have "drop (Suc (Suc index + length (tokenize rest'))) (command[index := Some parsed]) =
                     drop (Suc (Suc index + length (tokenize rest'))) command"
      by simp
    ultimately show ?thesis
      using Some a st tk by (simp add: get_input_loop.simps [of rest])
  qed
qed




section \<open>Descriptor tables and system calls\<close>

lemma fd_get_fd_set: "fd_get (fd_set t n v) fd = (if fd = int n then v else fd_get t fd)"
  by (auto simp: fd_get_def fd_set_def nth_append nth_list_update)

lemma lowest_free_free: "fd_get t (int (lowest_free t)) = None"
  using nth_length_takeWhile [of "\<lambda>v. v \<noteq> None" t]
  by (auto simp: fd_get_def lowest_free_def)

lemma emit_simps [simp]:
  "fds (emit e p) = fds p" "cur_dir (emit e p) = cur_dir p" "trace (emit e p) = trace p @ [e]"
  "nfork (emit e p) = nfork p" "npipe (emit e p) = npipe p"
  by (simp_all add: emit_def)

lemma pipe_success:
  assumes "pipe_ok os (npipe p)"
  obtains r w q where "pipe os fd p = ((int r, int w), q)"
    and "fd_get (fds p) (int r) = None" and "fd_get (fds p) (int w) = None" and "r \<noteq> w"
    and "\<forall>x. fd_get (fds q) x =
           (if x = int w then Some (PipeWrite (npipe p))
            else if x = int r then Some (PipeRead (npipe p)) else fd_get (fds p) x)"
    and "nfork q = nfork p" and "npipe q = Suc (npipe p)"
    and "trace q = trace p @ [EvPipe (Some (int r, int w))]" and "cur_dir q = cur_dir p"
proof -
  define r where "r = lowest_free (fds p)"
  define t1 where "t1 = fd_set (fds p) r (Some (PipeRead (npipe p)))"
  define w where "w = lowest_free t1"
  define q where "q = emit (EvPipe (Some (int r, int w)))
    (p\<lparr>fds := fd_set t1 w (Some (PipeWrite (npipe p))), npipe := Suc (npipe p)\<rparr>)"
  have 1: "pipe os fd p = ((int r, int w), q)"
    using assms by (simp add: pipe_def Let_def r_def t1_def w_def q_def)
  have 2: "fd_get (fds p) (int r) = None"
    unfolding r_def by (rule lowest_free_free)
  have "fd_get t1 (int w) = None"
    unfolding w_def by (rule lowest_free_free)
  then have 3: "r \<noteq> w \<and> fd_get (fds p) (int w) = None"
    by (auto simp: t1_def fd_get_fd_set split: if_splits)
  have 4: "\<forall>x. fd_get (fds q) x =
           (if x = int w then Some (PipeWrite (npipe p))
            else if x = int r then Some (PipeRead (npipe p)) else fd_get (fds p) x)"
    by (simp add: q_def t1_def fd_get_fd_set)
  show thesis
    using that [OF 1 2 _ _ 4] 3 by (simp add: q_def)
qed


lemma dup2_simps:
  "nfork (dup2 a b p) = nfork p" "npipe (dup2 a b p) = npipe p"
  "cur_dir (dup2 a b p) = cur_dir p" "trace (dup2 a b p) = trace p @ [EvDup2 a b]"
  by (simp_all add: dup2_def split: option.split)

lemma close_simps:
  "nfork (close a p) = nfork p" "npipe (close a p) = npipe p"
  "cur_dir (close a p) = cur_dir p" "trace (close a p) = trace p @ [EvClose a]"
  by (simp_all add: close_def)

lemma pipe_trace:
  "filter is_wait (trace (snd (pipe os fd p))) = filter is_wait (trace p)"
  "nfork (snd (pipe os fd p)) = nfork p"
  by (simp_all add: pipe_def Let_def)

lemma spawn_proc_parent:
  assumes "fork_ret os (nfork p) \<noteq> 0"
  shows "spawn_proc os in_fd out_fd c p =
           (Returned (fork_ret os (nfork p)),
            emit (EvFork (fork_ret os (nfork p)))
              (printf ''set_stdin_to: %d, set_stdout_to: %d\<newline>'' [I in_fd, I out_fd] p
               \<lparr>nfork := Suc (nfork p)\<rparr>))"
  using assms by (simp add: spawn_proc_def fork_def printf_def Let_def)

section \<open>The wiring of the pipeline\<close>

lemma parent_step:
  assumes lt: "int j < n - 1" and pk: "pipe_ok os j" and fk: "fork_ret os j \<noteq> 0"
    and inv: "at_stage a b j in_fd p"
  shows "\<exists>in' fd' p'. fork_pipes_loop os n cmd (int j) in_fd fd p =
                         fork_pipes_loop os n cmd (int (Suc j)) in' fd' p' \<and>
                       at_stage a b (Suc j) in' p'"
proof -
  from inv have nf: "nfork p = j" and np: "npipe p = j"
    and f0: "fd_get (fds p) 0 = Some a" and f1: "fd_get (fds p) 1 = Some b"
    by (simp_all add: at_stage_def)
  from pk np have "pipe_ok os (npipe p)"
    by simp
  then obtain r w q where pq: "pipe os fd p = ((int r, int w), q)"
    and fr: "fd_get (fds p) (int r) = None" and fw: "fd_get (fds p) (int w) = None"
    and rw: "r \<noteq> w"
    and fq: "\<forall>x. fd_get (fds q) x =
           (if x = int w then Some (PipeWrite (npipe p))
            else if x = int r then Some (PipeRead (npipe p)) else fd_get (fds p) x)"
    and nq: "nfork q = nfork p" "npipe q = Suc (npipe p)"
    and tq: "trace q = trace p @ [EvPipe (Some (int r, int w))]" and cq: "cur_dir q = cur_dir p"
    by (rule pipe_success [where fd = fd])
  from fr fw f0 f1 have ne: "int r \<noteq> 0" "int r \<noteq> 1" "int w \<noteq> 0" "int w \<noteq> 1"
    by (auto intro!: gr0I)
  define p3 where "p3 = emit (EvFork (fork_ret os j))
     (printf ''set_stdin_to: %d, set_stdout_to: %d\<newline>'' [I in_fd, I (int w)]
        (printf ''pipe results: (%d %d)\<newline>'' [I (int r), I (int w)] q)
      \<lparr>nfork := Suc j\<rparr>)"
  have sp: "spawn_proc os in_fd (int w) (cmd_at cmd (int j))
              (printf ''pipe results: (%d %d)\<newline>'' [I (int r), I (int w)] q) =
            (Returned (fork_ret os j), p3)"
    using fk nq nf by (simp add: spawn_proc_def fork_def printf_def Let_def p3_def)
  have "fork_pipes_loop os n cmd (int j) in_fd fd p =
        fork_pipes_loop os n cmd (int (Suc j)) (int r) (int r, int w) (close (int w) p3)"
    using lt pq sp by (subst fork_pipes_loop.simps) (simp add: Let_def add.commute)
  moreover have "at_stage a b (Suc j) (int r) (close (int w) p3)"
    using ne rw nq np nf f0 f1
    by (simp add: at_stage_def close_def p3_def printf_def fd_get_fd_set fq)
  ultimately show ?thesis
    by blast
qed

lemma child_step:
  assumes lt: "int j < n - 1" and pk: "pipe_ok os j" and fk: "fork_ret os j = 0"
    and len: "j < length cmd" and ex: "exec_ok os (cmd ! j)"
    and inv: "at_stage a b j in_fd p"
  shows "\<exists>q. fork_pipes_loop os n cmd (int j) in_fd fd p = (Replaced (cmd ! j), q) \<and>
             fd_get (fds q) 0 = Some (if j = 0 then a else PipeRead (j - 1)) \<and>
             fd_get (fds q) 1 = Some (PipeWrite j)"
proof -
  from inv have nf: "nfork p = j" and np: "npipe p = j"
    and f0: "fd_get (fds p) 0 = Some a" and f1: "fd_get (fds p) 1 = Some b"
    and fi: "fd_get (fds p) in_fd = Some (if j = 0 then a else PipeRead (j - 1))"
    by (simp_all add: at_stage_def)
  from pk np have "pipe_ok os (npipe p)"
    by simp
  then obtain r w q where pq: "pipe os fd p = ((int r, int w), q)"
    and fr: "fd_get (fds p) (int r) = None" and fw: "fd_get (fds p) (int w) = None"
    and rw: "r \<noteq> w"
    and fq: "\<forall>x. fd_get (fds q) x =
           (if x = int w then Some (PipeWrite (npipe p))
            else if x = int r then Some (PipeRead (npipe p)) else fd_get (fds p) x)"
    and nq: "nfork q = nfork p" "npipe q = Suc (npipe p)"
    and tq: "trace q = trace p @ [EvPipe (Some (int r, int w))]" and cq: "cur_dir q = cur_dir p"
    by (rule pipe_success [where fd = fd])
  from fr fw f0 f1 fi
  have ne: "int r \<noteq> 0" "int r \<noteq> 1" "int w \<noteq> 0" "int w \<noteq> 1" "in_fd \<noteq> int r" "in_fd \<noteq> int w"
    by (auto intro!: gr0I)
  have ca: "cmd_at cmd (int j) = Some (cmd ! j)"
    using len by (simp add: cmd_at_def)
  define p2 where "p2 = emit (EvFork 0)
     (printf ''set_stdin_to: %d, set_stdout_to: %d\<newline>'' [I in_fd, I (int w)]
        (printf ''pipe results: (%d %d)\<newline>'' [I (int r), I (int w)] q)
      \<lparr>nfork := Suc j\<rparr>)"
  define pa where "pa = (if in_fd \<noteq> 0 then close in_fd (dup2 in_fd 0 p2) else p2)"
  define pb where "pb = close (int w) (dup2 (int w) 1 pa)"
  have f2: "fd_get (fds p2) x = fd_get (fds q) x" for x
    by (simp add: p2_def printf_def)
  have a0: "fd_get (fds pa) 0 = Some (if j = 0 then a else PipeRead (j - 1))"
    using ne fi by (cases "in_fd = 0") (simp_all add: pa_def dup2_def close_def f2 fq fd_get_fd_set)
  have aw: "fd_get (fds pa) (int w) = Some (PipeWrite j)"
    using ne np fi by (cases "in_fd = 0") (simp_all add: pa_def dup2_def close_def f2 fq fd_get_fd_set)
  have b0: "fd_get (fds pb) 0 = Some (if j = 0 then a else PipeRead (j - 1))"
    using ne a0 aw by (simp add: pb_def dup2_def close_def fd_get_fd_set)
  have b1: "fd_get (fds pb) 1 = Some (PipeWrite j)"
    using ne aw by (simp add: pb_def dup2_def close_def fd_get_fd_set)
  have sp: "spawn_proc os in_fd (int w) (cmd_at cmd (int j))
              (printf ''pipe results: (%d %d)\<newline>'' [I (int r), I (int w)] q) =
            (Replaced (cmd ! j), emit (EvExecvp (cmd ! j)) pb)"
    using fk nq nf ex ca ne
    by (simp add: spawn_proc_def fork_def printf_def Let_def execvp_def p2_def pa_def pb_def)
  have "fork_pipes_loop os n cmd (int j) in_fd fd p =
          (Replaced (cmd ! j), emit (EvExecvp (cmd ! j)) pb)"
    using lt pq sp by (subst fork_pipes_loop.simps) (simp add: Let_def)
  with b0 b1 show ?thesis
    by simp
qed

lemma final_step:
  assumes ge: "\<not> int j < n - 1" and len: "j < length cmd" and inv: "at_stage a b j in_fd p"
  shows "\<exists>q. fork_pipes_loop os n cmd (int j) in_fd fd p =
               (if exec_ok os (cmd ! j) then Replaced (cmd ! j) else Returned (- 1), q) \<and>
             fd_get (fds q) 0 = Some (if j = 0 then a else PipeRead (j - 1)) \<and>
             fd_get (fds q) 1 = Some b \<and> nfork q = j \<and> npipe q = j"
proof -
  from inv have nf: "nfork p = j" and np: "npipe p = j"
    and f0: "fd_get (fds p) 0 = Some a" and f1: "fd_get (fds p) 1 = Some b"
    and fi: "fd_get (fds p) in_fd = Some (if j = 0 then a else PipeRead (j - 1))"
    and i0: "in_fd = 0 \<longleftrightarrow> j = 0"
    by (simp_all add: at_stage_def)
  have ca: "cmd_at cmd (int j) = Some (cmd ! j)"
    using len by (simp add: cmd_at_def)
  show ?thesis
    using ge ca nf np f0 f1 fi i0
    by (subst fork_pipes_loop.simps)
       (auto simp: Let_def execvp_def dup2_def fd_get_fd_set)
qed

lemma loop_advance:
  assumes pk: "\<forall>k. pipe_ok os k" and le: "i \<le> j" and jn: "int j \<le> n - 1"
    and fk: "\<forall>k. i \<le> k \<and> k < j \<longrightarrow> fork_ret os k \<noteq> 0"
    and inv: "at_stage a b i in_fd p"
  shows "\<exists>in' fd' p'. fork_pipes_loop os n cmd (int i) in_fd fd p =
                         fork_pipes_loop os n cmd (int j) in' fd' p' \<and>
                       at_stage a b j in' p'"
  using le jn fk
proof (induction j rule: dec_induct)
  case base
  from inv show ?case
    by blast
next
  case (step m)
  then obtain in1 fd1 p1 where
    eq: "fork_pipes_loop os n cmd (int i) in_fd fd p = fork_pipes_loop os n cmd (int m) in1 fd1 p1"
    and inv1: "at_stage a b m in1 p1"
    by auto
  from step have "int m < n - 1" and "fork_ret os m \<noteq> 0"
    by auto
  from parent_step [OF this(1) _ this(2) inv1, of cmd fd1] pk eq show ?case
    by auto
qed


text \<open>
  C1. For every pipeline of \<open>N \<ge> 1\<close> stages, run where every \<open>fork\<close> and \<open>pipe\<close>
  succeeds, every stage's program can be executed, and descriptors 0 and 1 are open on
  the files \<open>a\<close> and \<open>b\<close>: for each \<open>i\<close> from 0 to \<open>N - 2\<close>, the child made by the
  \<open>i\<close>-th \<open>fork\<close> becomes stage \<open>i\<close>, with standard input the rolling input (\<open>a\<close>
  for stage 0, the read end of pipe \<open>i - 1\<close> otherwise) and standard output the write
  end of pipe \<open>i\<close>, the pipe made in the same iteration; the orchestrator makes exactly
  \<open>N - 1\<close> children and \<open>N - 1\<close> pipes and then becomes stage \<open>N - 1\<close> itself by
  \<open>execvp\<close>, with standard input the rolling input (the read end of the last pipe,
  or \<open>a\<close> when there is no pipe) and standard output \<open>b\<close>.
\<close>

theorem fork_pipes_wiring:
  assumes n: "n = int (length cmd)" and n1: "1 \<le> n"
    and forks: "\<forall>k. 0 < fork_ret os k" and pipes: "\<forall>k. pipe_ok os k"
    and execs: "\<forall>c\<in>set cmd. exec_ok os c"
    and init: "nfork p = 0" "npipe p = 0" "fd_get (fds p) 0 = Some a" "fd_get (fds p) 1 = Some b"
  shows "(\<forall>i. Suc i < length cmd \<longrightarrow>
           (\<exists>q. fork_pipes (child_of i os) fd_init n cmd p = (Replaced (cmd ! i), q) \<and>
                fd_get (fds q) 0 = Some (if i = 0 then a else PipeRead (i - 1)) \<and>
                fd_get (fds q) 1 = Some (PipeWrite i))) \<and>
         (\<exists>q. fork_pipes os fd_init n cmd p = (Replaced (cmd ! (length cmd - 1)), q) \<and>
              fd_get (fds q) 0 = Some (if length cmd = 1 then a else PipeRead (length cmd - 2)) \<and>
              fd_get (fds q) 1 = Some b \<and>
              nfork q = length cmd - 1 \<and> npipe q = length cmd - 1)"
proof (intro conjI allI impI)
  from init have inv: "at_stage a b 0 0 p"
    by (simp add: at_stage_def)
  have nz: "fork_ret os k \<noteq> 0" for k
    using forks by (metis less_irrefl)
  {
    fix i
    assume i: "Suc i < length cmd"
    let ?os = "child_of i os"
    have pk: "\<forall>k. pipe_ok ?os k"
      using pipes by (simp add: child_of_def)
    have fk: "\<forall>k. 0 \<le> k \<and> k < i \<longrightarrow> fork_ret ?os k \<noteq> 0"
      using nz by (simp add: child_of_def)
    from i n have ilt: "int i < n - 1" "int i \<le> n - 1"
      by simp_all
    from loop_advance [OF pk _ ilt(2) fk inv, of cmd fd_init]
    obtain in' fd' p' where
      eq: "fork_pipes_loop ?os n cmd (int 0) 0 fd_init p = fork_pipes_loop ?os n cmd (int i) in' fd' p'"
      and inv': "at_stage a b i in' p'"
      by auto
    have "pipe_ok ?os i" "fork_ret ?os i = 0" "i < length cmd" "exec_ok ?os (cmd ! i)"
      using pipes execs i by (simp_all add: child_of_def)
    from child_step [OF ilt(1) this inv', of fd'] eq
    show "\<exists>q. fork_pipes ?os fd_init n cmd p = (Replaced (cmd ! i), q) \<and>
                fd_get (fds q) 0 = Some (if i = 0 then a else PipeRead (i - 1)) \<and>
                fd_get (fds q) 1 = Some (PipeWrite i)"
      by (simp add: fork_pipes_def)
  }
  let ?j = "length cmd - 1"
  from n n1 have j: "int ?j \<le> n - 1" "\<not> int ?j < n - 1" "?j < length cmd"
    by simp_all
  have fk: "\<forall>k. 0 \<le> k \<and> k < ?j \<longrightarrow> fork_ret os k \<noteq> 0"
    using nz by simp
  from loop_advance [OF pipes _ j(1) fk inv, of cmd fd_init]
  obtain in' fd' p' where
    eq: "fork_pipes_loop os n cmd (int 0) 0 fd_init p = fork_pipes_loop os n cmd (int ?j) in' fd' p'"
    and inv': "at_stage a b ?j in' p'"
    by auto
  from j(3) execs have ex: "exec_ok os (cmd ! ?j)"
    by simp
  from final_step [OF j(2) j(3) inv', of os fd'] ex
  obtain q where q: "fork_pipes_loop os n cmd (int ?j) in' fd' p' = (Replaced (cmd ! ?j), q)"
    and q0: "fd_get (fds q) 0 = Some (if ?j = 0 then a else PipeRead (?j - 1))"
    and q1: "fd_get (fds q) 1 = Some b" and qn: "nfork q = ?j" "npipe q = ?j"
    by auto
  have "(if ?j = 0 then a else PipeRead (?j - 1)) =
        (if length cmd = 1 then a else PipeRead (length cmd - 2))"
    using j(3) by (cases "length cmd = 1") (auto simp: numeral_2_eq_2)
  with q0 have q0': "fd_get (fds q) 0 = Some (if length cmd = 1 then a else PipeRead (length cmd - 2))"
    by simp
  from eq q have "fork_pipes os fd_init n cmd p = (Replaced (cmd ! ?j), q)"
    by (simp add: fork_pipes_def)
  with q0' q1 qn show "\<exists>q. fork_pipes os fd_init n cmd p = (Replaced (cmd ! ?j), q) \<and>
              fd_get (fds q) 0 = Some (if length cmd = 1 then a else PipeRead (length cmd - 2)) \<and>
              fd_get (fds q) 1 = Some b \<and> nfork q = ?j \<and> npipe q = ?j"
    by blast
qed

theorem fork_pipes_wiring_witness:
  "(\<exists>q. pipe_main (child_of 0 os0) (0, 0) proc0 = (Replaced [''ls'', ''-la''], q) \<and>
        fd_get (fds q) 0 = Some (Inherited 0) \<and> fd_get (fds q) 1 = Some (PipeWrite 0)) \<and>
   (\<exists>q. pipe_main (child_of 1 os0) (0, 0) proc0 = (Replaced [''awk'', ''{print $9}''], q) \<and>
        fd_get (fds q) 0 = Some (PipeRead 0) \<and> fd_get (fds q) 1 = Some (PipeWrite 1)) \<and>
   (\<exists>q. pipe_main (child_of 2 os0) (0, 0) proc0 = (Replaced [''sort''], q) \<and>
        fd_get (fds q) 0 = Some (PipeRead 1) \<and> fd_get (fds q) 1 = Some (PipeWrite 2)) \<and>
   (\<exists>q. pipe_main os0 (0, 0) proc0 = (Replaced [''uniq''], q) \<and>
        fd_get (fds q) 0 = Some (PipeRead 2) \<and> fd_get (fds q) 1 = Some (Inherited 1) \<and>
        nfork q = 3 \<and> npipe q = 3)"
proof -
  let ?cmd = "[[''ls'', ''-la''], [''awk'', ''{print $9}''], [''sort''], [''uniq'']]"
  have h: "4 = int (length ?cmd)" "1 \<le> (4 :: int)" "\<forall>k. 0 < fork_ret os0 k" "\<forall>k. pipe_ok os0 k"
    "\<forall>c\<in>set ?cmd. exec_ok os0 c" "nfork proc0 = 0" "npipe proc0 = 0"
    "fd_get (fds proc0) 0 = Some (Inherited 0)" "fd_get (fds proc0) 1 = Some (Inherited 1)"
    by (simp_all add: os0_def proc0_def fd_get_def)
  note w = fork_pipes_wiring [OF h, of "(0, 0)"]
  from w have c: "\<And>i. Suc i < 4 \<Longrightarrow>
      (\<exists>q. pipe_main (child_of i os0) (0, 0) proc0 = (Replaced (?cmd ! i), q) \<and>
           fd_get (fds q) 0 = Some (if i = 0 then Inherited 0 else PipeRead (i - 1)) \<and>
           fd_get (fds q) 1 = Some (PipeWrite i))"
    by (simp add: pipe_main_def)
  from c [of 0] c [of 1] c [of 2] w show ?thesis
    by (simp add: pipe_main_def numeral_2_eq_2 numeral_3_eq_3)
qed

section \<open>The orchestrator and its children\<close>

lemma orchestrator_loop:
  assumes nz: "\<forall>k. fork_ret os k \<noteq> 0" and n: "n = int (length cmd)"
  shows "0 \<le> i \<Longrightarrow> i \<le> n - 1 \<Longrightarrow>
         fst (fork_pipes_loop os n cmd i in_fd fd p) =
           (if exec_ok os (last cmd) then Replaced (last cmd) else Returned (- 1)) \<and>
         nfork (snd (fork_pipes_loop os n cmd i in_fd fd p)) = nfork p + nat (n - 1 - i) \<and>
         filter is_wait (trace (snd (fork_pipes_loop os n cmd i in_fd fd p))) =
           filter is_wait (trace p)"
proof (induction "nat (n - 1 - i)" arbitrary: i in_fd fd p)
  case 0
  then have i: "i = n - 1"
    by simp
  from "0.prems" n i have len: "1 \<le> length cmd"
    by linarith
  then have ne: "cmd \<noteq> []"
    by auto
  from i n len have "nat i = length cmd - 1"
    by simp
  with ne len 0 have ca: "cmd_at cmd i = Some (last cmd)"
    by (simp add: cmd_at_def last_conv_nth)
  show ?case
    using i ca
    by (subst (1 2 3) fork_pipes_loop.simps) (simp add: Let_def execvp_def dup2_simps)
next
  case (Suc m)
  then have lt: "i < n - 1"
    by simp
  obtain fd' p1 where pp: "pipe os fd p = (fd', p1)"
    by (cases "pipe os fd p")
  define p2 where "p2 = printf ''pipe results: (%d %d)\<newline>'' [I (fst fd'), I (snd fd')] p1"
  define p3 where "p3 = emit (EvFork (fork_ret os (nfork p2)))
              (printf ''set_stdin_to: %d, set_stdout_to: %d\<newline>'' [I in_fd, I (snd fd')] p2
               \<lparr>nfork := Suc (nfork p2)\<rparr>)"
  have sp: "spawn_proc os in_fd (snd fd') (cmd_at cmd i) p2 = (Returned (fork_ret os (nfork p2)), p3)"
    unfolding p3_def using nz by (intro spawn_proc_parent) simp
  have step: "fork_pipes_loop os n cmd i in_fd fd p =
              fork_pipes_loop os n cmd (i + 1) (fst fd') fd' (close (snd fd') p3)"
    using lt pp sp by (subst fork_pipes_loop.simps) (simp add: Let_def p2_def)
  from pipe_trace [of os fd p] pp
  have t3: "filter is_wait (trace (close (snd fd') p3)) = filter is_wait (trace p)"
    and n3: "nfork (close (snd fd') p3) = Suc (nfork p)"
    by (simp_all add: close_simps p3_def p2_def printf_def)
  from Suc.hyps(2) have "m = nat (n - 1 - (i + 1))"
    by simp
  from Suc.hyps(1) [OF this, of "fst fd'" fd' "close (snd fd') p3"] Suc.prems lt
  show ?case
    unfolding step t3 n3 using Suc.hyps(2) by simp
qed

text \<open>
  C2 (as amended). For every pipeline of \<open>N \<ge> 2\<close> stages whose forks all succeed,
  the orchestrator creates \<open>N - 1\<close> children and issues no \<open>waitpid\<close> at all: it
  ends by \<open>execvp\<close> of the last stage, and \<open>fork_pipes\<close> returns only when that
  \<open>execvp\<close> fails, with its result \<open>-1\<close>.
\<close>

theorem fork_pipes_never_waits:
  assumes "n = int (length cmd)" and "2 \<le> n" and "\<forall>k. 0 < fork_ret os k"
  shows "fst (fork_pipes os fd_init n cmd p) =
           (if exec_ok os (last cmd) then Replaced (last cmd) else Returned (- 1)) \<and>
         nfork (snd (fork_pipes os fd_init n cmd p)) = nfork p + (length cmd - 1) \<and>
         filter is_wait (trace (snd (fork_pipes os fd_init n cmd p))) = filter is_wait (trace p)"
proof -
  from assms(3) have "\<forall>k. fork_ret os k \<noteq> 0"
    by (metis less_irrefl)
  moreover have "(0 :: int) \<le> 0" "0 \<le> n - 1" and d: "nat (n - 1 - 0) = length cmd - 1"
    using assms(1,2) by linarith+
  ultimately show ?thesis
    unfolding fork_pipes_def d [symmetric] using assms(1) by (intro orchestrator_loop)
qed

theorem fork_pipes_never_waits_witness:
  "fst (pipe_main os0 (0, 0) proc0) = Replaced [''uniq''] \<and>
   nfork (snd (pipe_main os0 (0, 0) proc0)) = 3 \<and>
   filter is_wait (trace (snd (pipe_main os0 (0, 0) proc0))) = []"
proof -
  let ?cmd = "[[''ls'', ''-la''], [''awk'', ''{print $9}''], [''sort''], [''uniq'']]"
  have "4 = int (length ?cmd)" "2 \<le> (4 :: int)" "\<forall>k. 0 < fork_ret os0 k"
    by (simp_all add: os0_def)
  from fork_pipes_never_waits [OF this, of "(0, 0)" proc0] show ?thesis
    by (simp add: pipe_main_def os0_def proc0_def)
qed

text \<open>
  The run of the orchestrator on the two-stage pipeline \<open>ls | sort\<close>, call by call.
\<close>

lemma two_stage_run:
  "fork_pipes os0 (0, 0) 2 [[''ls''], [''sort'']] proc0 =
     (Replaced [''sort''],
      \<lparr>fds = [Some (PipeRead 0), Some (Inherited 1), Some (Inherited 2), Some (PipeRead 0), None],
       cur_dir = ''/home/user'',
       trace = [EvPipe (Some (3, 4)),
                EvPrintf ''pipe results: (%d %d)\<newline>'' [I 3, I 4],
                EvPrintf ''set_stdin_to: %d, set_stdout_to: %d\<newline>'' [I 0, I 4],
                EvFork 100, EvClose 4, EvDup2 3 0, EvExecvp [''sort'']],
       nfork = 1, npipe = 1\<rparr>)"
  by code_simp

text \<open>
  Against C2 as stated: on \<open>ls | sort\<close> the orchestrator creates the child 100 and
  is replaced by \<open>sort\<close> without any \<open>waitpid\<close> in between.
\<close>

theorem fork_pipes_waits_counterexample:
  "fst (fork_pipes os0 (0, 0) 2 [[''ls''], [''sort'']] proc0) = Replaced [''sort''] \<and>
   EvFork 100 \<in> set (trace (snd (fork_pipes os0 (0, 0) 2 [[''ls''], [''sort'']] proc0))) \<and>
   EvWaitpid 100 \<notin> set (trace (snd (fork_pipes os0 (0, 0) 2 [[''ls''], [''sort'']] proc0)))"
  by (simp add: two_stage_run)

text \<open>
  C3. The child made for stage 0 of the pipeline
  \<open>nosuchprog | sort\<close>, whose \<open>execvp\<close> fails: \<open>spawn_proc\<close> returns the \<open>-1\<close> of
  \<open>execvp\<close> into \<open>fork_pipes\<close>, which ignores it. The child writes no diagnostic
  and does not exit; it goes on with the orchestrator's code (\<open>close(fd[1])\<close>, the
  end of the loop, \<open>dup2\<close>) and becomes a second copy of the last stage.
\<close>

theorem spawn_proc_failed_exec_falls_through:
  "exec_ok os0 [''nosuchprog''] = False \<and>
   fork_pipes (child_of 0 os0) (0, 0) 2 [[''nosuchprog''], [''sort'']] proc0 =
     (Replaced [''sort''],
      \<lparr>fds = [Some (PipeRead 0), Some (PipeWrite 0), Some (Inherited 2), Some (PipeRead 0), None],
       cur_dir = ''/home/user'',
       trace = [EvPipe (Some (3, 4)),
                EvPrintf ''pipe results: (%d %d)\<newline>'' [I 3, I 4],
                EvPrintf ''set_stdin_to: %d, set_stdout_to: %d\<newline>'' [I 0, I 4],
                EvFork 0, EvDup2 4 1, EvClose 4, EvExecvp [''nosuchprog''],
                EvClose 4, EvDup2 3 0, EvExecvp [''sort'']],
       nfork = 1, npipe = 1\<rparr>)"
  by code_simp

text \<open>
  Write ends never stay open in the orchestrator: whatever \<open>pipe\<close> does, the
  \<open>close(fd[1])\<close> after each spawn removes the only write end the table holds.
\<close>

lemma no_write_end_emit: "no_write_end (emit e p) = no_write_end p"
  by (simp add: no_write_end_def)

lemma dup2_no_write_end: "no_write_end p \<Longrightarrow> no_write_end (dup2 a b p)"
  by (auto simp: no_write_end_def dup2_def fd_get_fd_set split: option.splits if_splits)

lemma pipe_close_no_write_end:
  assumes "no_write_end p" and "pipe os fd p = (fd', p1)"
    and "fds p3 = fds p1"
  shows "no_write_end (close (snd fd') p3)"
proof (cases "pipe_ok os (npipe p)")
  case True
  then obtain r w q where "pipe os fd p = ((int r, int w), q)"
    and "\<forall>x. fd_get (fds q) x =
           (if x = int w then Some (PipeWrite (npipe p))
            else if x = int r then Some (PipeRead (npipe p)) else fd_get (fds p) x)"
    using pipe_success [of os p fd] by metis
  with assms show ?thesis
    by (auto simp: no_write_end_def close_def fd_get_fd_set)
next
  case False
  with assms show ?thesis
    by (auto simp: no_write_end_def close_def fd_get_fd_set pipe_def)
qed

lemma orchestrator_closes_write_ends:
  assumes nz: "\<forall>k. fork_ret os k \<noteq> 0"
  shows "no_write_end p \<Longrightarrow> no_write_end (snd (fork_pipes_loop os n cmd i in_fd fd p))"
proof (induction "nat (n - 1 - i)" arbitrary: i in_fd fd p)
  case 0
  then have "\<not> i < n - 1"
    by simp
  with "0.prems" show ?case
    by (subst fork_pipes_loop.simps)
       (simp add: Let_def execvp_def dup2_no_write_end no_write_end_emit split: option.split)
next
  case (Suc m)
  then have lt: "i < n - 1"
    by simp
  obtain fd' p1 where pp: "pipe os fd p = (fd', p1)"
    by (cases "pipe os fd p")
  define p2 where "p2 = printf ''pipe results: (%d %d)\<newline>'' [I (fst fd'), I (snd fd')] p1"
  define p3 where "p3 = emit (EvFork (fork_ret os (nfork p2)))
              (printf ''set_stdin_to: %d, set_stdout_to: %d\<newline>'' [I in_fd, I (snd fd')] p2
               \<lparr>nfork := Suc (nfork p2)\<rparr>)"
  have sp: "spawn_proc os in_fd (snd fd') (cmd_at cmd i) p2 = (Returned (fork_ret os (nfork p2)), p3)"
    unfolding p3_def using nz by (intro spawn_proc_parent) simp
  have step: "fork_pipes_loop os n cmd i in_fd fd p =
              fork_pipes_loop os n cmd (i + 1) (fst fd') fd' (close (snd fd') p3)"
    using lt pp sp by (subst fork_pipes_loop.simps) (simp add: Let_def p2_def)
  have "fds p3 = fds p1"
    by (simp add: p3_def p2_def printf_def)
  from pipe_close_no_write_end [OF Suc.prems pp this]
  have "no_write_end (close (snd fd') p3)" .
  moreover from Suc.hyps(2) have "m = nat (n - 1 - (i + 1))"
    by simp
  ultimately show ?case
    unfolding step by (intro Suc.hyps(1))
qed

text \<open>
  C4. When the orchestrator of \<open>ls | sort\<close> is replaced by the last stage, the write
  end of the pipe is closed, but descriptor 3, which was free at the start, is still
  open on the read end of the pipe: the final \<open>dup2(in, 0)\<close> is not followed by
  \<open>close(in)\<close>, and the loop never closes a read end.
\<close>

theorem fork_pipes_leaks_read_end:
  "fd_get (fds proc0) 3 = None \<and>
   fst (fork_pipes os0 (0, 0) 2 [[''ls''], [''sort'']] proc0) = Replaced [''sort''] \<and>
   fd_get (fds (snd (fork_pipes os0 (0, 0) 2 [[''ls''], [''sort'']] proc0))) 3 = Some (PipeRead 0) \<and>
   fd_get (fds (snd (fork_pipes os0 (0, 0) 2 [[''ls''], [''sort'']] proc0))) 4 = None"
  unfolding two_stage_run by (simp add: proc0_def fd_get_def)

section \<open>One iteration of the Shell Loop\<close>

lemma get_input_tokens:
  assumes "length (tokenize line) \<le> 7"
  shows "get_input line =
           Inr (map Some (tokenize line) @ None # replicate (7 - length (tokenize line)) None)"
proof -
  from assms have "0 + length (tokenize line) < length (replicate command_slots (None :: slot))"
    by (simp add: command_slots_def)
  from get_input_loop_in_bounds [OF this] show ?thesis
    by (simp add: get_input_def command_slots_def)
qed

lemma tokenize_spaces:
  assumes "set line \<subseteq> {CHR '' ''}"
  shows "tokenize line = []"
proof -
  from assms have "dropWhile (\<lambda>c. c \<in> set separator) line = []"
    by (auto simp: separator_def)
  then show ?thesis
    by (simp add: tokenize.simps [of line] strtok_def)
qed

lemma shell_iter_blank:
  assumes "tokenize line = []"
  shows "shell_iter os (Some line) p = (Continues, emit (EvReadline ''$ '') p)"
  using get_input_tokens [of line] assms by (simp add: shell_iter_def)

lemma argv_of_tokens: "argv_of (map Some ts @ None # rest) = ts"
  by (induction ts) (simp_all add: argv_of_def)

text \<open>What one iteration does with a line of one to seven tokens.\<close>

lemma shell_iter_command:
  assumes tk: "tokenize line = name # args" and len: "length args \<le> 6"
  shows "shell_iter os (Some line) p =
     (let p0 = emit (EvReadline ''$ '') p;
          (child_pid, p1) = fork os p0 in
      if child_pid < 0 then (Exited 1, emit (EvExit 1) (perror ''Fork failed'' p1))
      else if child_pid = 0 then
        (if name = ''cd'' then
           (let (result, p2) = chdir os (case args of [] \<Rightarrow> None | path # _ \<Rightarrow> Some path) p1;
                p3 = (if result \<noteq> 0 then perror ''chdir() result'' p2 else p2)
            in (Continues, cwd os p3))
         else if exec_ok os (name # args) then (Replaced (name # args), emit (EvExecvp (name # args)) p1)
         else (Exited 1, emit (EvExit 1) (perror name (emit (EvExecvp (name # args)) p1))))
      else (Continues, emit (EvWaitpid child_pid) p1))"
proof -
  let ?command = "Some name # map Some args @ None # replicate (6 - length args) None"
  from tk len have gi: "get_input line = Inr ?command"
    using get_input_tokens [of line] by simp
  have c1: "?command ! 1 = (case args of [] \<Rightarrow> None | path # _ \<Rightarrow> Some path)"
    by (cases args) simp_all
  have av: "argv_of ?command = name # args"
    using argv_of_tokens [of "name # args"] by simp
  have c0: "?command ! 0 = Some name"
    by simp
  show ?thesis
    by (simp only: shell_iter_def gi Let_def sum.case c0 c1 av option.case)
       (simp add: execvp_def split: prod.split)
qed

lemma chdir_frame:
  "cur_dir (snd (chdir os path p)) =
     (case path of None \<Rightarrow> cur_dir p
      | Some d \<Rightarrow> (case chdir_to os (cur_dir p) d of None \<Rightarrow> cur_dir p | Some d' \<Rightarrow> d'))"
  by (simp add: chdir_def Let_def split: option.split)

lemma cwd_frame: "cur_dir (cwd os p) = cur_dir p"
  by (simp add: cwd_def Let_def printf_def perror_def)

lemma shell_iter_parent_dir:
  assumes "fork_ret os (nfork p) \<noteq> 0"
  shows "cur_dir (snd (shell_iter os input p)) = cur_dir p \<and>
         (fst (shell_iter os input p) = Continues \<longrightarrow>
            nfork (snd (shell_iter os input p)) \<in> {nfork p, Suc (nfork p)})"
  using assms
  by (auto simp: shell_iter_def Let_def fork_def perror_def split: option.split sum.split)

section \<open>Failures in the child of the Shell Loop\<close>

text \<open>
  The child of the Shell Loop whose \<open>execvp\<close> fails writes the program name with
  \<open>perror\<close> and exits with status 1: the pattern that \<open>spawn_proc\<close> of pipe.c
  lacks.
\<close>

lemma shell_child_exec_failure:
  assumes tk: "tokenize line = name # args" and len: "length args \<le> 6"
    and name: "name \<noteq> ''cd''" and child: "fork_ret os (nfork p) = 0"
    and fail: "\<not> exec_ok os (name # args)"
  shows "shell_iter os (Some line) p =
           (Exited 1,
            p\<lparr>trace := trace p @ [EvReadline ''$ '', EvFork 0, EvExecvp (name # args),
                                  EvPerror name, EvExit 1],
              nfork := Suc (nfork p)\<rparr>)"
  using name child fail
  by (simp add: shell_iter_command [OF tk len] Let_def fork_def perror_def emit_def)

section \<open>The builtin \<open>cd\<close>\<close>

lemma shell_loop_parent_dir:
  "\<forall>k. fork_ret os k \<noteq> 0 \<Longrightarrow> cur_dir (snd (shell_loop os inputs p)) = cur_dir p"
proof (induction inputs arbitrary: p)
  case Nil
  show ?case
    by simp
next
  case (Cons input inputs)
  obtain r p' where it: "shell_iter os input p = (r, p')"
    by (cases "shell_iter os input p")
  from Cons.prems have "fork_ret os (nfork p) \<noteq> 0"
    by simp
  from shell_iter_parent_dir [OF this, of input] it have d: "cur_dir p' = cur_dir p"
    by simp
  show ?case
  proof (cases "r = Continues")
    case True
    with it Cons.IH [OF Cons.prems, of p'] d show ?thesis
      by simp
  next
    case False
    with it d show ?thesis
      by (cases r) simp_all
  qed
qed

text \<open>
  C5. A \<open>cd\<close> line is run in the child that the Shell Loop forks for it. In that
  child the working directory becomes the directory that \<open>chdir\<close> of the path
  argument leads to (nothing changes when the argument is missing or \<open>chdir\<close>
  fails); in the parent shell the working directory after this iteration, and after
  any sequence of input lines with this line among them, is the one it had before,
  whatever the path argument is.
\<close>

theorem cd_changes_only_the_child:
  assumes tk: "tokenize line = ''cd'' # args" and len: "length args \<le> 6"
    and forks: "\<forall>k. 0 < fork_ret os k"
  shows "cur_dir (snd (shell_iter (child_of (nfork p) os) (Some line) p)) =
           (case args of
              [] \<Rightarrow> cur_dir p
            | path # _ \<Rightarrow> (case chdir_to os (cur_dir p) path of None \<Rightarrow> cur_dir p | Some d \<Rightarrow> d)) \<and>
         cur_dir (snd (shell_iter os (Some line) p)) = cur_dir p \<and>
         cur_dir (snd (shell_loop os (before @ Some line # after) p)) = cur_dir p"
proof (intro conjI)
  have nz: "\<forall>k. fork_ret os k \<noteq> 0"
    using forks by (metis less_irrefl)
  show "cur_dir (snd (shell_iter (child_of (nfork p) os) (Some line) p)) =
           (case args of
              [] \<Rightarrow> cur_dir p
            | path # _ \<Rightarrow> (case chdir_to os (cur_dir p) path of None \<Rightarrow> cur_dir p | Some d \<Rightarrow> d))"
  proof -
    let ?os = "child_of (nfork p) os"
    let ?path = "case args of [] \<Rightarrow> None | path # _ \<Rightarrow> Some path"
    define p1 where "p1 = snd (fork ?os (emit (EvReadline ''$ '') p))"
    have fk: "fork ?os (emit (EvReadline ''$ '') p) = (0, p1)"
      by (simp add: p1_def fork_def child_of_def)
    have d1: "cur_dir p1 = cur_dir p"
      by (simp add: p1_def fork_def)
    obtain result p2 where ch: "chdir ?os ?path p1 = (result, p2)"
      by (cases "chdir ?os ?path p1")
    from chdir_frame [of ?os ?path p1] ch d1
    have d2: "cur_dir p2 =
           (case args of
              [] \<Rightarrow> cur_dir p
            | path # _ \<Rightarrow> (case chdir_to os (cur_dir p) path of None \<Rightarrow> cur_dir p | Some d \<Rightarrow> d))"
      by (simp add: child_of_def split: list.split option.split)
    have "shell_iter ?os (Some line) p =
            (Continues, cwd ?os (if result \<noteq> 0 then perror ''chdir() result'' p2 else p2))"
      unfolding shell_iter_command [OF tk len] by (simp add: fk ch Let_def)
    with d2 show ?thesis
      by (simp add: cwd_frame perror_def)
  qed
  from nz have "fork_ret os (nfork p) \<noteq> 0"
    by simp
  from shell_iter_parent_dir [OF this]
  show "cur_dir (snd (shell_iter os (Some line) p)) = cur_dir p"
    by simp
  from nz show "cur_dir (snd (shell_loop os (before @ Some line # after) p)) = cur_dir p"
    by (rule shell_loop_parent_dir)
qed

theorem cd_changes_only_the_child_witness:
  "cur_dir (snd (shell_iter (child_of 0 os0) (Some ''cd /tmp'') proc0)) = ''/tmp'' \<and>
   cur_dir (snd (shell_iter os0 (Some ''cd /tmp'') proc0)) = ''/home/user'' \<and>
   cur_dir (snd (shell_loop os0 [Some ''ls'', Some ''cd /tmp'', Some ''ls''] proc0)) = ''/home/user''"
proof -
  have a: "tokenize ''cd /tmp'' = ''cd'' # [''/tmp'']"
    by code_simp
  have b: "length [''/tmp''] \<le> 6" "\<forall>k. 0 < fork_ret os0 k"
    by (simp_all add: os0_def)
  from cd_changes_only_the_child [OF a b, of proc0 "[Some ''ls'']" "[Some ''ls'']"]
  show ?thesis
    by (simp add: proc0_def os0_def)
qed

text \<open>
  C6. The child that runs \<open>cd /nonexistent\<close>: \<open>chdir\<close> fails, the diagnostic is
  written with \<open>perror\<close> and the unchanged directory is printed, and then the child
  does not exit: the iteration ends in \<open>Continues\<close>, so there is no exit status, and
  the child reads the next line itself and forks for it as a second shell.
\<close>

theorem cd_failure_child_keeps_running:
  "chdir_to os0 ''/home/user'' ''/nonexistent'' = None \<and>
   shell_iter (child_of 0 os0) (Some ''cd /nonexistent'') proc0 =
     (Continues,
      \<lparr>fds = [Some (Inherited 0), Some (Inherited 1), Some (Inherited 2)],
       cur_dir = ''/home/user'',
       trace = [EvReadline ''$ '', EvFork 0, EvChdir (Some ''/nonexistent''),
                EvPerror ''chdir() result'', EvGetcwd,
                EvPrintf ''Current Working Directory: %s\<newline>'' [S ''/home/user'']],
       nfork = 1, npipe = 0\<rparr>) \<and>
   trace (snd (shell_loop (child_of 0 os0) [Some ''cd /nonexistent'', Some ''ls''] proc0)) =
     [EvReadline ''$ '', EvFork 0, EvChdir (Some ''/nonexistent''),
      EvPerror ''chdir() result'', EvGetcwd,
      EvPrintf ''Current Working Directory: %s\<newline>'' [S ''/home/user''],
      EvReadline ''$ '', EvFork 101, EvWaitpid 101]"
  by code_simp

section \<open>Failure of \<open>fork\<close> in the Shell Loop\<close>

text \<open>
  Against C7 as stated: when \<open>fork\<close> fails for the first of two lines, the shell
  exits with status 1 and the second line is never read.
\<close>

theorem fork_failure_continues_counterexample:
  "shell_loop os_nofork [Some ''ls'', Some ''ls''] proc0 =
     (Exited 1,
      \<lparr>fds = [Some (Inherited 0), Some (Inherited 1), Some (Inherited 2)],
       cur_dir = ''/home/user'',
       trace = [EvReadline ''$ '', EvFork (- 1), EvPerror ''Fork failed'', EvExit 1],
       nfork = 1, npipe = 0\<rparr>)"
  by code_simp

text \<open>
  C7 (as amended). When \<open>fork\<close> fails for a command line, the Shell Loop writes the
  diagnostic \<open>Fork failed\<close> with \<open>perror\<close> and the whole shell exits with status
  1: no further input line is read.
\<close>

theorem fork_failure_exits_shell:
  assumes tk: "tokenize line = name # args" and len: "length args \<le> 6"
    and fail: "fork_ret os (nfork p) < 0"
  shows "shell_loop os (Some line # inputs) p =
           (Exited 1,
            p\<lparr>trace := trace p @ [EvReadline ''$ '', EvFork (fork_ret os (nfork p)),
                                  EvPerror ''Fork failed'', EvExit 1],
              nfork := Suc (nfork p)\<rparr>)"
  using fail
  by (simp add: shell_iter_command [OF tk len] Let_def fork_def perror_def emit_def)

theorem fork_failure_exits_shell_witness:
  "shell_loop os_nofork [Some ''ls -la'', Some ''ls''] proc0 =
     (Exited 1,
      proc0\<lparr>trace := trace proc0 @ [EvReadline ''$ '', EvFork (- 1),
                                  EvPerror ''Fork failed'', EvExit 1],
            nfork := Suc (nfork proc0)\<rparr>)"
proof -
  have a: "tokenize ''ls -la'' = ''ls'' # [''-la'']"
    by code_simp
  have b: "length [''-la''] \<le> 6" "fork_ret os_nofork (nfork proc0) < 0"
    by (simp_all add: os_nofork_def)
  from fork_failure_exits_shell [OF a b, of "[Some ''ls'']"] show ?thesis
    by (simp add: os_nofork_def)
qed

section \<open>Blank lines\<close>

lemma tokenize_empty_iff: "tokenize line = [] \<longleftrightarrow> set line \<subseteq> {CHR '' ''}"
proof
  assume "tokenize line = []"
  then have "strtok separator line = None"
    by (simp add: tokenize.simps [of line] split: option.splits prod.splits)
  then have "dropWhile (\<lambda>c. c \<in> set separator) line = []"
    by (simp add: strtok_def Let_def split: if_splits)
  then show "set line \<subseteq> {CHR '' ''}"
    by (auto simp: separator_def)
next
  assume "set line \<subseteq> {CHR '' ''}"
  then show "tokenize line = []"
    by (rule tokenize_spaces)
qed

text \<open>
  Against C8 as stated: a line that holds a single tab is all whitespace, yet it is a
  one-token command. The Shell Loop forks for it (child 100) and waits, and the child
  tries to execute it, writes the diagnostic with \<open>perror\<close> and exits with status 1.
\<close>

theorem blank_line_counterexample:
  "list_all isspace [CHR 0x09] \<and>
   shell_iter os0 (Some [CHR 0x09]) proc0 =
     (Continues,
      \<lparr>fds = [Some (Inherited 0), Some (Inherited 1), Some (Inherited 2)],
       cur_dir = ''/home/user'',
       trace = [EvReadline ''$ '', EvFork 100, EvWaitpid 100],
       nfork = 1, npipe = 0\<rparr>) \<and>
   shell_iter (child_of 0 os0) (Some [CHR 0x09]) proc0 =
     (Exited 1,
      \<lparr>fds = [Some (Inherited 0), Some (Inherited 1), Some (Inherited 2)],
       cur_dir = ''/home/user'',
       trace = [EvReadline ''$ '', EvFork 0, EvExecvp [[CHR 0x09]], EvPerror [CHR 0x09], EvExit 1],
       nfork = 1, npipe = 0\<rparr>)"
  by code_simp

text \<open>
  C8 (as amended). For every input line that is empty or consists of space characters
  only, which are exactly the lines that tokenize to no token at all, the iteration
  issues no call but \<open>readline\<close>: no process is created, nothing is printed, and
  the loop goes on to read the next line.
\<close>

theorem blank_line_reprompts:
  "(tokenize line = [] \<longleftrightarrow> set line \<subseteq> {CHR '' ''}) \<and>
   (tokenize line = [] \<longrightarrow>
      shell_iter os (Some line) p = (Continues, p\<lparr>trace := trace p @ [EvReadline ''$ '']\<rparr>) \<and>
      shell_loop os (Some line # inputs) p =
        shell_loop os inputs (p\<lparr>trace := trace p @ [EvReadline ''$ '']\<rparr>))"
  using shell_iter_blank [of line os p]
  by (simp add: emit_def tokenize_empty_iff)

theorem blank_line_reprompts_witness:
  "tokenize ''   '' = [] \<and> tokenize [] = [] \<and>
   shell_iter os0 (Some ''   '') proc0 =
     (Continues, proc0\<lparr>trace := trace proc0 @ [EvReadline ''$ '']\<rparr>) \<and>
   shell_iter os0 (Some []) proc0 =
     (Continues, proc0\<lparr>trace := trace proc0 @ [EvReadline ''$ '']\<rparr>)"
proof -
  have "set ''   '' \<subseteq> {CHR '' ''}" "set ([] :: string) \<subseteq> {CHR '' ''}"
    by simp_all
  with blank_line_reprompts [of "''   ''" os0 proc0 "[]"]
    blank_line_reprompts [of "[]" os0 proc0 "[]"]
  show ?thesis
    by simp
qed

text \<open>
  A tab is not a separator: a line that holds a single tab is a one-token command.
\<close>

lemma tab_is_a_token: "tokenize [CHR 0x09] = [[CHR 0x09]]"
  by code_simp

section \<open>The directory utility\<close>

text \<open>
  C9. The directory utility returns 1, after printing \<open>invalid args\<close>, whenever
  it is not given exactly one path argument (\<open>argc \<noteq> 2\<close>). With one path
  argument it returns 0; when \<open>chdir\<close> succeeds the working directory is the new
  one and the last thing printed is that directory (or the \<open>getcwd\<close> diagnostic,
  when its name cannot be read or does not fit the buffer); when \<open>chdir\<close> fails the
  diagnostic \<open>chdir() result\<close> is printed before the unchanged directory.
\<close>

theorem cd_main_exit_codes:
  "(length argv \<noteq> 2 \<longrightarrow>
      cd_main os argv p = (Returned 1, p\<lparr>trace := trace p @ [EvPrintf ''invalid args'' []]\<rparr>)) \<and>
   (length argv = 2 \<and> chdir_to os (cur_dir p) (argv ! 1) = Some d \<longrightarrow>
      fst (cd_main os argv p) = Returned 0 \<and>
      cur_dir (snd (cd_main os argv p)) = d \<and>
      trace (snd (cd_main os argv p)) =
        trace p @ [EvChdir (Some (argv ! 1)), EvGetcwd,
                   if getcwd_ok os d \<and> length d < 256
                   then EvPrintf ''Current Working Directory: %s\<newline>'' [S d]
                   else EvPerror ''getcwd() error'']) \<and>
   (length argv = 2 \<and> chdir_to os (cur_dir p) (argv ! 1) = None \<longrightarrow>
      fst (cd_main os argv p) = Returned 0 \<and>
      cur_dir (snd (cd_main os argv p)) = cur_dir p \<and>
      trace (snd (cd_main os argv p)) =
        trace p @ [EvChdir (Some (argv ! 1)), EvPerror ''chdir() result'', EvGetcwd,
                   if getcwd_ok os (cur_dir p) \<and> length (cur_dir p) < 256
                   then EvPrintf ''Current Working Directory: %s\<newline>'' [S (cur_dir p)]
                   else EvPerror ''getcwd() error''])"
  by (simp add: cd_main_def chdir_def cwd_def Let_def printf_def perror_def emit_def)

theorem cd_main_exit_codes_witness:
  "cd_main os0 [''cd''] proc0 =
     (Returned 1, proc0\<lparr>trace := trace proc0 @ [EvPrintf ''invalid args'' []]\<rparr>) \<and>
   cd_main os0 [''cd'', ''/tmp'', ''/usr''] proc0 =
     (Returned 1, proc0\<lparr>trace := trace proc0 @ [EvPrintf ''invalid args'' []]\<rparr>) \<and>
   fst (cd_main os0 [''cd'', ''/tmp''] proc0) = Returned 0 \<and>
   cur_dir (snd (cd_main os0 [''cd'', ''/tmp''] proc0)) = ''/tmp'' \<and>
   trace (snd (cd_main os0 [''cd'', ''/tmp''] proc0)) =
     [EvChdir (Some ''/tmp''), EvGetcwd,
      EvPrintf ''Current Working Directory: %s\<newline>'' [S ''/tmp'']] \<and>
   fst (cd_main os0 [''cd'', ''/nonexistent''] proc0) = Returned 0 \<and>
   trace (snd (cd_main os0 [''cd'', ''/nonexistent''] proc0)) =
     [EvChdir (Some ''/nonexistent''), EvPerror ''chdir() result'', EvGetcwd,
      EvPrintf ''Current Working Directory: %s\<newline>'' [S ''/home/user'']]"
  using cd_main_exit_codes [of "[''cd'']" os0 proc0 "''/tmp''"]
    cd_main_exit_codes [of "[''cd'', ''/tmp'', ''/usr'']" os0 proc0 "''/tmp''"]
    cd_main_exit_codes [of "[''cd'', ''/tmp'']" os0 proc0 "''/tmp''"]
    cd_main_exit_codes [of "[''cd'', ''/nonexistent'']" os0 proc0 "''/tmp''"]
  by (simp add: os0_def proc0_def)

end
